theory Spec2Isabelle
  imports Main "HOL-Library.Word"
begin

unbundle bit_operations_syntax

section \<open>JavaScript strings\<close>

text \<open>
  A JavaScript string is a sequence of 16-bit code units. Literals of the source are
  written \<open>js ''...''\<close>; code units outside ASCII are written as numerals.
\<close>

type_synonym jschar = "16 word"
type_synonym jsstring = "jschar list"

definition js :: "string \<Rightarrow> jsstring" where
  "js s = map of_char s"

text \<open>
  \<open>String.prototype.trim\<close> strips the ECMAScript WhiteSpace and LineTerminator code
  points from both ends: TAB, LF, VT, FF, CR, SP, NBSP, U+1680, U+2000..U+200A, LS, PS,
  U+202F, U+205F, U+3000 and the byte order mark.
\<close>

definition isWhiteSpace :: "jschar \<Rightarrow> bool" where
  "isWhiteSpace c \<longleftrightarrow>
     c \<in> set [0x0009, 0x000A, 0x000B, 0x000C, 0x000D, 0x0020, 0x00A0, 0x1680,
              0x2028, 0x2029, 0x202F, 0x205F, 0x3000, 0xFEFF]
     \<or> (0x2000 \<le> c \<and> c \<le> 0x200A)"

definition trim :: "jsstring \<Rightarrow> jsstring" where
  "trim s = rev (dropWhile isWhiteSpace (rev (dropWhile isWhiteSpace s)))"

text \<open>Number-to-string conversion of a non-negative integer (an array length).\<close>

fun ToString :: "nat \<Rightarrow> jsstring" where
  "ToString n =
     (if n < 10 then [0x30 + of_nat n]
      else ToString (n div 10) @ [0x30 + of_nat (n mod 10)])"

section \<open>JSON values and \<open>JSON.stringify\<close>\<close>

text \<open>
  The values \<open>JSON.parse\<close> can return. A number is kept as its source text: the
  program never computes with one, and IEEE doubles are outside this embedding.
\<close>

datatype json =
    JNull
  | JBool bool
  | JNum jsstring
  | JStr jsstring
  | JArr "json list"
  | JObj "(jsstring \<times> json) list"

definition isLeadingSurrogate :: "jschar \<Rightarrow> bool" where
  "isLeadingSurrogate c \<longleftrightarrow> 0xD800 \<le> c \<and> c \<le> 0xDBFF"

definition isTrailingSurrogate :: "jschar \<Rightarrow> bool" where
  "isTrailingSurrogate c \<longleftrightarrow> 0xDC00 \<le> c \<and> c \<le> 0xDFFF"

definition hexDigit :: "jschar \<Rightarrow> jschar" where
  "hexDigit d = (if d < 10 then 0x30 + d else 0x57 + d)"

definition UnicodeEscape :: "jschar \<Rightarrow> jsstring" where
  "UnicodeEscape c =
     [0x5C, 0x75, hexDigit (drop_bit 12 c AND 0xF), hexDigit (drop_bit 8 c AND 0xF),
      hexDigit (drop_bit 4 c AND 0xF), hexDigit (c AND 0xF)]"

text \<open>The escape of one code unit that is not part of a surrogate pair.\<close>

definition quoteUnit :: "jschar \<Rightarrow> jsstring" where
  "quoteUnit c =
     (if c = 0x08 then [0x5C, 0x62]
      else if c = 0x09 then [0x5C, 0x74]
      else if c = 0x0A then [0x5C, 0x6E]
      else if c = 0x0C then [0x5C, 0x66]
      else if c = 0x0D then [0x5C, 0x72]
      else if c = 0x22 then [0x5C, 0x22]
      else if c = 0x5C then [0x5C, 0x5C]
      else if c < 0x20 \<or> isLeadingSurrogate c \<or> isTrailingSurrogate c then UnicodeEscape c
      else [c])"

fun quoteUnits :: "jsstring \<Rightarrow> jsstring" where
  "quoteUnits [] = []"
| "quoteUnits [c] = quoteUnit c"
| "quoteUnits (c # d # cs) =
     (if isLeadingSurrogate c \<and> isTrailingSurrogate d then c # d # quoteUnits cs
      else quoteUnit c @ quoteUnits (d # cs))"

definition QuoteJSONString :: "jsstring \<Rightarrow> jsstring" where
  "QuoteJSONString s = [0x22] @ quoteUnits s @ [0x22]"

fun joinComma :: "jsstring list \<Rightarrow> jsstring" where
  "joinComma [] = []"
| "joinComma [x] = x"
| "joinComma (x # y # ys) = x @ [0x2C] @ joinComma (y # ys)"

fun JSON_stringify :: "json \<Rightarrow> jsstring" where
  "JSON_stringify JNull = js ''null''"
| "JSON_stringify (JBool b) = (if b then js ''true'' else js ''false'')"
| "JSON_stringify (JNum n) = n"
| "JSON_stringify (JStr s) = QuoteJSONString s"
| "JSON_stringify (JArr xs) = [0x5B] @ joinComma (map JSON_stringify xs) @ [0x5D]"
| "JSON_stringify (JObj ms) =
     [0x7B] @ joinComma (map (\<lambda>(k, v). QuoteJSONString k @ [0x3A] @ JSON_stringify v) ms)
     @ [0x7D]"

section \<open>The built-in \<open>Set\<close>\<close>

text \<open>
  A \<open>Set\<close> is the list of its members in insertion order, without repetition.
  Membership is SameValueZero: primitives compare by value, and an array or object is
  the same as no other member.
\<close>

fun SameValueZero :: "json \<Rightarrow> json \<Rightarrow> bool" where
  "SameValueZero (JArr _) _ = False"
| "SameValueZero (JObj _) _ = False"
| "SameValueZero v w = (v = w)"

definition Set_has :: "json \<Rightarrow> json list \<Rightarrow> bool" where
  "Set_has v S = list_ex (\<lambda>m. SameValueZero v m) S"

definition Set_add :: "json \<Rightarrow> json list \<Rightarrow> json list" where
  "Set_add v S = (if Set_has v S then S else S @ [v])"

definition Set_delete :: "json \<Rightarrow> json list \<Rightarrow> json list" where
  "Set_delete v S = filter (\<lambda>m. \<not> SameValueZero v m) S"

section \<open>\<open>JSON.parse\<close>\<close>

text \<open>
  The JSON grammar of ECMA-404 as \<open>JSON.parse\<close> reads it: a lexer that consumes one
  code unit at a time, then a parser that consumes one token at a time and keeps the
  open arrays and objects on a stack. \<open>None\<close> is the SyntaxError. An object keeps its
  members in source order.
\<close>

datatype token =
    TLBrace | TRBrace | TLBracket | TRBracket | TColon | TComma
  | TString jsstring | TNumber jsstring | TTrue | TFalse | TNull

datatype numstate = NMinus | NZero | NInt | NPoint | NFrac | NExp | NExpSign | NExpDigits

datatype lexmode =
    Between
  | InString jsstring
  | InEscape jsstring
  | InUnicode jsstring nat jschar
  | InNumber numstate jsstring
  | InLiteral jsstring token

definition isDigit :: "jschar \<Rightarrow> bool" where
  "isDigit c \<longleftrightarrow> 0x30 \<le> c \<and> c \<le> 0x39"

definition hexValue :: "jschar \<Rightarrow> jschar option" where
  "hexValue c =
     (if 0x30 \<le> c \<and> c \<le> 0x39 then Some (c - 0x30)
      else if 0x61 \<le> c \<and> c \<le> 0x66 then Some (c - 0x57)
      else if 0x41 \<le> c \<and> c \<le> 0x46 then Some (c - 0x37)
      else None)"

fun num_step :: "numstate \<Rightarrow> jschar \<Rightarrow> numstate option" where
  "num_step NMinus c = (if c = 0x30 then Some NZero else if isDigit c then Some NInt else None)"
| "num_step NZero c =
     (if c = 0x2E then Some NPoint else if c = 0x65 \<or> c = 0x45 then Some NExp else None)"
| "num_step NInt c =
     (if isDigit c then Some NInt else if c = 0x2E then Some NPoint
      else if c = 0x65 \<or> c = 0x45 then Some NExp else None)"
| "num_step NPoint c = (if isDigit c then Some NFrac else None)"
| "num_step NFrac c =
     (if isDigit c then Some NFrac else if c = 0x65 \<or> c = 0x45 then Some NExp else None)"
| "num_step NExp c =
     (if c = 0x2B \<or> c = 0x2D then Some NExpSign else if isDigit c then Some NExpDigits else None)"
| "num_step NExpSign c = (if isDigit c then Some NExpDigits else None)"
| "num_step NExpDigits c = (if isDigit c then Some NExpDigits else None)"

fun num_complete :: "numstate \<Rightarrow> bool" where
  "num_complete NZero = True"
| "num_complete NInt = True"
| "num_complete NFrac = True"
| "num_complete NExpDigits = True"
| "num_complete _ = False"

definition lex_between :: "token list \<Rightarrow> jschar \<Rightarrow> (token list \<times> lexmode) option" where
  "lex_between ts c =
     (if c = 0x20 \<or> c = 0x09 \<or> c = 0x0A \<or> c = 0x0D then Some (ts, Between)
      else if c = 0x7B then Some (ts @ [TLBrace], Between)
      else if c = 0x7D then Some (ts @ [TRBrace], Between)
      else if c = 0x5B then Some (ts @ [TLBracket], Between)
      else if c = 0x5D then Some (ts @ [TRBracket], Between)
      else if c = 0x3A then Some (ts @ [TColon], Between)
      else if c = 0x2C then Some (ts @ [TComma], Between)
      else if c = 0x22 then Some (ts, InString [])
      else if c = 0x2D then Some (ts, InNumber NMinus [c])
      else if c = 0x30 then Some (ts, InNumber NZero [c])
      else if isDigit c then Some (ts, InNumber NInt [c])
      else if c = 0x74 then Some (ts, InLiteral (js ''rue'') TTrue)
      else if c = 0x66 then Some (ts, InLiteral (js ''alse'') TFalse)
      else if c = 0x6E then Some (ts, InLiteral (js ''ull'') TNull)
      else None)"

definition unescape :: "jschar \<Rightarrow> jschar option" where
  "unescape c =
     (if c = 0x22 \<or> c = 0x5C \<or> c = 0x2F then Some c
      else if c = 0x62 then Some 0x08
      else if c = 0x66 then Some 0x0C
      else if c = 0x6E then Some 0x0A
      else if c = 0x72 then Some 0x0D
      else if c = 0x74 then Some 0x09
      else None)"

fun lex_step :: "token list \<times> lexmode \<Rightarrow> jschar \<Rightarrow> (token list \<times> lexmode) option" where
  "lex_step (ts, Between) c = lex_between ts c"
| "lex_step (ts, InString s) c =
     (if c = 0x22 then Some (ts @ [TString s], Between)
      else if c = 0x5C then Some (ts, InEscape s)
      else if c < 0x20 then None
      else Some (ts, InString (s @ [c])))"
| "lex_step (ts, InEscape s) c =
     (if c = 0x75 then Some (ts, InUnicode s 0 0)
      else (case unescape c of None \<Rightarrow> None | Some u \<Rightarrow> Some (ts, InString (s @ [u]))))"
| "lex_step (ts, InUnicode s k acc) c =
     (case hexValue c of
        None \<Rightarrow> None
      | Some d \<Rightarrow>
          (if k = 3 then Some (ts, InString (s @ [push_bit 4 acc OR d]))
           else Some (ts, InUnicode s (Suc k) (push_bit 4 acc OR d))))"
| "lex_step (ts, InNumber st lx) c =
     (case num_step st c of
        Some st' \<Rightarrow> Some (ts, InNumber st' (lx @ [c]))
      | None \<Rightarrow> (if num_complete st then lex_between (ts @ [TNumber lx]) c else None))"
| "lex_step (ts, InLiteral [] tok) c = None"
| "lex_step (ts, InLiteral (r # rs) tok) c =
     (if c \<noteq> r then None
      else if rs = [] then Some (ts @ [tok], Between)
      else Some (ts, InLiteral rs tok))"

fun lex_from :: "token list \<times> lexmode \<Rightarrow> jsstring \<Rightarrow> token list option" where
  "lex_from (ts, Between) [] = Some ts"
| "lex_from (ts, InNumber st lx) [] = (if num_complete st then Some (ts @ [TNumber lx]) else None)"
| "lex_from (ts, m) [] = None"
| "lex_from st (c # cs) = (case lex_step st c of None \<Rightarrow> None | Some st' \<Rightarrow> lex_from st' cs)"

datatype frame = FArr "json list" | FObj "(jsstring \<times> json) list" | FKey jsstring

datatype expect = Value | ValueOrClose | KeyOrClose | Key | Colon | CommaOrClose | Finished json

fun deliver :: "json \<Rightarrow> frame list \<Rightarrow> (frame list \<times> expect) option" where
  "deliver v [] = Some ([], Finished v)"
| "deliver v (FArr xs # st) = Some (FArr (xs @ [v]) # st, CommaOrClose)"
| "deliver v (FKey k # FObj ms # st) = Some (FObj (ms @ [(k, v)]) # st, CommaOrClose)"
| "deliver v st = None"

fun close_array :: "frame list \<Rightarrow> (frame list \<times> expect) option" where
  "close_array (FArr xs # st) = deliver (JArr xs) st"
| "close_array st = None"

fun close_object :: "frame list \<Rightarrow> (frame list \<times> expect) option" where
  "close_object (FObj ms # st) = deliver (JObj ms) st"
| "close_object st = None"

fun begin_value :: "token \<Rightarrow> frame list \<Rightarrow> (frame list \<times> expect) option" where
  "begin_value TLBracket st = Some (FArr [] # st, ValueOrClose)"
| "begin_value TLBrace st = Some (FObj [] # st, KeyOrClose)"
| "begin_value (TString s) st = deliver (JStr s) st"
| "begin_value (TNumber n) st = deliver (JNum n) st"
| "begin_value TTrue st = deliver (JBool True) st"
| "begin_value TFalse st = deliver (JBool False) st"
| "begin_value TNull st = deliver JNull st"
| "begin_value tok st = None"

fun parse_step :: "frame list \<times> expect \<Rightarrow> token \<Rightarrow> (frame list \<times> expect) option" where
  "parse_step (st, Value) tok = begin_value tok st"
| "parse_step (st, ValueOrClose) tok =
     (if tok = TRBracket then close_array st else begin_value tok st)"
| "parse_step (st, KeyOrClose) tok =
     (case tok of TRBrace \<Rightarrow> close_object st
      | TString k \<Rightarrow> Some (FKey k # st, Colon)
      | _ \<Rightarrow> None)"
| "parse_step (st, Key) tok =
     (case tok of TString k \<Rightarrow> Some (FKey k # st, Colon) | _ \<Rightarrow> None)"
| "parse_step (st, Colon) tok = (if tok = TColon then Some (st, Value) else None)"
| "parse_step (st, CommaOrClose) tok =
     (case tok of
        TComma \<Rightarrow>
          (case st of FArr xs # r \<Rightarrow> Some (st, Value) | FObj ms # r \<Rightarrow> Some (st, Key)
           | _ \<Rightarrow> None)
      | TRBracket \<Rightarrow> close_array st
      | TRBrace \<Rightarrow> close_object st
      | _ \<Rightarrow> None)"
| "parse_step (st, Finished v) tok = None"

fun parse_from :: "frame list \<times> expect \<Rightarrow> token list \<Rightarrow> json option" where
  "parse_from ([], Finished v) [] = Some v"
| "parse_from (st, e) [] = None"
| "parse_from p (tok # toks) =
     (case parse_step p tok of None \<Rightarrow> None | Some p' \<Rightarrow> parse_from p' toks)"

definition JSON_parse :: "jsstring \<Rightarrow> json option" where
  "JSON_parse text =
     (case lex_from ([], Between) text of
        None \<Rightarrow> None
      | Some toks \<Rightarrow> parse_from ([], Value) toks)"


text \<open>
  \<open>new Set(iterable)\<close>: \<open>null\<close> gives the empty set, a string is iterated by code
  points, an array by its elements; a boolean, a number or a plain object is not
  iterable.
\<close>

datatype error = SyntaxError | TypeError | NotFoundError | NotAllowedError

fun codePoints :: "jsstring \<Rightarrow> jsstring list" where
  "codePoints [] = []"
| "codePoints [c] = [[c]]"
| "codePoints (c # d # cs) =
     (if isLeadingSurrogate c \<and> isTrailingSurrogate d then [c, d] # codePoints cs
      else [c] # codePoints (d # cs))"

definition Set_of_list :: "json list \<Rightarrow> json list" where
  "Set_of_list vs = foldl (\<lambda>S v. Set_add v S) [] vs"

fun new_Set :: "json \<Rightarrow> error + json list" where
  "new_Set JNull = Inr []"
| "new_Set (JStr s) = Inr (Set_of_list (map JStr (codePoints s)))"
| "new_Set (JArr xs) = Inr (Set_of_list xs)"
| "new_Set v = Inl TypeError"

section \<open>Application state\<close>

record font =
  name :: jsstring
  category :: jsstring
  class' :: jsstring

text \<open>
  One card of the grid: the properties \<open>renderFonts\<close> assigns to the card and to its four
  children, in the order they are appended, and the font captured by the two click
  handlers.
\<close>

record card =
  card_className :: jsstring
  logoDiv_className :: jsstring
  logoDiv_textContent :: jsstring
  fontInfo_className :: jsstring
  fontInfo_innerHTML :: jsstring
  favoriteBtn_className :: jsstring
  favoriteBtn_innerHTML :: jsstring
  favoriteBtn_title :: jsstring
  copyIndicator_className :: jsstring
  copyIndicator_textContent :: jsstring
  handler_font :: font

text \<open>
  The module-level variables \<open>fonts\<close>, \<open>currentFilter\<close> and \<open>favorites\<close>, the parts of
  the page the script reads and writes (\<open>input.value\<close>, the children of \<open>grid\<close>,
  \<open>statsCount.textContent\<close>), and \<open>localStorage\<close> with the list of its \<open>setItem\<close>
  calls. Storage writes are taken to succeed.
\<close>

record state =
  fonts :: "font list"
  currentFilter :: jsstring
  favorites :: "json list"
  input_value :: jsstring
  grid :: "card list"
  statsCount_textContent :: jsstring
  localStorage :: "jsstring \<rightharpoonup> jsstring"
  setItem_calls :: "(jsstring \<times> jsstring) list"

definition setItem :: "jsstring \<Rightarrow> jsstring \<Rightarrow> state \<Rightarrow> state" where
  "setItem k v s =
     s\<lparr>localStorage := (localStorage s)(k \<mapsto> v), setItem_calls := setItem_calls s @ [(k, v)]\<rparr>"

section \<open>Rendering\<close>

definition fontInfo_template :: "font \<Rightarrow> jsstring" where
  "fontInfo_template f =
     [0x0A] @ js ''      <div class='' @ [0x22] @ js ''font-name'' @ [0x22] @ js ''>''
     @ name f @ js ''</div>''
     @ [0x0A] @ js ''      <div class='' @ [0x22] @ js ''category'' @ [0x22] @ js ''>''
     @ category f @ js ''</div>''
     @ [0x0A] @ js ''    ''"

definition make_card :: "json list \<Rightarrow> jsstring \<Rightarrow> font \<Rightarrow> card" where
  "make_card favs currentText f =
     \<lparr>card_className = js ''logo-card'',
      logoDiv_className = js ''logo '' @ class' f,
      logoDiv_textContent = currentText,
      fontInfo_className = js ''font-info'',
      fontInfo_innerHTML = fontInfo_template f,
      favoriteBtn_className =
        js ''favorite-btn '' @ (if Set_has (JStr (name f)) favs then js ''favorited'' else []),
      favoriteBtn_innerHTML = (if Set_has (JStr (name f)) favs then [0x2605] else [0x2606]),
      favoriteBtn_title =
        (if Set_has (JStr (name f)) favs then js ''Remove from favorites''
         else js ''Add to favorites''),
      copyIndicator_className = js ''copy-indicator'',
      copyIndicator_textContent = js ''Copied!'',
      handler_font = f\<rparr>"

definition filteredFonts :: "jsstring \<Rightarrow> state \<Rightarrow> font list" where
  "filteredFonts flt s =
     (if flt = js ''favorites''
      then filter (\<lambda>f. Set_has (JStr (name f)) (favorites s)) (fonts s)
      else (if flt = js ''all'' then fonts s
            else filter (\<lambda>f. category f = flt) (fonts s)))"

definition currentText :: "state \<Rightarrow> jsstring" where
  "currentText s = (if trim (input_value s) \<noteq> [] then trim (input_value s) else js ''ABC'')"

text \<open>
  \<open>renderFonts(filter)\<close>: the grid is emptied, the working set chosen, the count
  written, the sample text read, and one card appended per font of the working set. A
  call without argument is \<open>renderFonts (js ''all'')\<close>, the default of the parameter.
\<close>

definition renderFonts :: "jsstring \<Rightarrow> state \<Rightarrow> state" where
  "renderFonts flt s =
     (let s1 = s\<lparr>grid := []\<rparr>;
          fs = filteredFonts flt s1;
          s2 = s1\<lparr>statsCount_textContent := ToString (length fs)\<rparr>;
          txt = currentText s2
      in foldl (\<lambda>st f. st\<lparr>grid := grid st @ [make_card (favorites st) txt f]\<rparr>) s2 fs)"

section \<open>Favorites\<close>

definition saveFavorites :: "state \<Rightarrow> state" where
  "saveFavorites s = setItem (js ''fontFavorites'') (JSON_stringify (JArr (favorites s))) s"

definition toggleFavorite :: "jsstring \<Rightarrow> state \<Rightarrow> state" where
  "toggleFavorite fontName s =
     (let s1 = (if Set_has (JStr fontName) (favorites s)
                then s\<lparr>favorites := Set_delete (JStr fontName) (favorites s)\<rparr>
                else s\<lparr>favorites := Set_add (JStr fontName) (favorites s)\<rparr>);
          s2 = saveFavorites s1
      in if currentFilter s2 = js ''favorites'' then renderFonts (currentFilter s2) s2 else s2)"

text \<open>
  \<open>loadFavorites\<close> has no \<open>try\<close>: an exception of \<open>JSON.parse\<close> or of the \<open>Set\<close>
  constructor leaves the function, and the assignment to \<open>favorites\<close> does not happen.
\<close>

definition loadFavorites :: "state \<Rightarrow> error + state" where
  "loadFavorites s =
     (case localStorage s (js ''fontFavorites'') of
        None \<Rightarrow> Inr s
      | Some stored \<Rightarrow>
          (if stored \<noteq> [] then
             (case JSON_parse stored of
                None \<Rightarrow> Inl SyntaxError
              | Some v \<Rightarrow>
                  (case new_Set v of
                     Inl e \<Rightarrow> Inl e
                   | Inr S \<Rightarrow> Inr (s\<lparr>favorites := S\<rparr>)))
           else Inr s))"

section \<open>The first version of the script\<close>

text \<open>
  The repository holds a second copy of the script, without favorites. Its
  \<open>renderFonts\<close> reads the input without trimming it and has its own placeholder.
\<close>

record part000_card =
  p0_card_className :: jsstring
  p0_logoDiv_className :: jsstring
  p0_logoDiv_textContent :: jsstring
  p0_fontInfo_className :: jsstring
  p0_fontInfo_innerHTML :: jsstring
  p0_copyIndicator_className :: jsstring
  p0_copyIndicator_textContent :: jsstring
  p0_handler_font :: font

record part000_state =
  p0_fonts :: "font list"
  p0_currentFilter :: jsstring
  p0_input_value :: jsstring
  p0_grid :: "part000_card list"
  p0_statsCount_textContent :: jsstring

definition part000_currentText :: "part000_state \<Rightarrow> jsstring" where
  "part000_currentText s = (if p0_input_value s \<noteq> [] then p0_input_value s else js ''I<ARIM'')"

definition part000_make_card :: "jsstring \<Rightarrow> font \<Rightarrow> part000_card" where
  "part000_make_card txt f =
     \<lparr>p0_card_className = js ''logo-card'',
      p0_logoDiv_className = js ''logo '' @ class' f,
      p0_logoDiv_textContent = txt,
      p0_fontInfo_className = js ''font-info'',
      p0_fontInfo_innerHTML = fontInfo_template f,
      p0_copyIndicator_className = js ''copy-indicator'',
      p0_copyIndicator_textContent = js ''Copied!'',
      p0_handler_font = f\<rparr>"

definition part000_renderFonts :: "jsstring \<Rightarrow> part000_state \<Rightarrow> part000_state" where
  "part000_renderFonts flt s =
     (let s1 = s\<lparr>p0_grid := []\<rparr>;
          fs = (if flt = js ''all'' then p0_fonts s1
                else filter (\<lambda>f. category f = flt) (p0_fonts s1));
          s2 = s1\<lparr>p0_statsCount_textContent := ToString (length fs)\<rparr>;
          txt = part000_currentText s2
      in foldl (\<lambda>st f. st\<lparr>p0_grid := p0_grid st @ [part000_make_card txt f]\<rparr>) s2 fs)"

section \<open>Clipboard\<close>

text \<open>
  The children of \<open>document.body\<close> are nodes with an identity; \<open>createElement\<close> returns
  a node whose identity no child has. The document keeps the console output and the
  list of \<open>appendChild\<close> and \<open>removeChild\<close> calls on the body.
\<close>

record node =
  node_id :: nat
  tagName :: jsstring
  node_value :: jsstring
  style_position :: jsstring
  style_left :: jsstring
  style_top :: jsstring

datatype console_msg = ConsoleWarn jsstring error | ConsoleError jsstring error

datatype mutation = Appended node | Removed node

record document =
  body :: "node list"
  console :: "console_msg list"
  mutations :: "mutation list"

text \<open>
  What the browser decides: whether \<open>navigator.clipboard\<close> exists, whether the context
  is secure, whether the promise of \<open>writeText\<close> is fulfilled (\<open>None\<close>) or rejected,
  and whether \<open>document.execCommand("copy")\<close> returns a boolean or throws.
\<close>

datatype exec_result = Returns bool | Throws error

record environment =
  navigator_clipboard :: bool
  isSecureContext :: bool
  writeText :: "jsstring \<Rightarrow> error option"
  execCommand_copy :: exec_result

definition createElement :: "jsstring \<Rightarrow> document \<Rightarrow> node" where
  "createElement tag d =
     \<lparr>node_id = Suc (foldr max (map node_id (body d)) 0), tagName = tag, node_value = [],
      style_position = [], style_left = [], style_top = []\<rparr>"

definition appendChild :: "node \<Rightarrow> document \<Rightarrow> document" where
  "appendChild n d = d\<lparr>body := body d @ [n], mutations := mutations d @ [Appended n]\<rparr>"

definition removeChild :: "node \<Rightarrow> document \<Rightarrow> error + document" where
  "removeChild n d =
     (if node_id n \<in> set (map node_id (body d))
      then Inr (d\<lparr>body := filter (\<lambda>m. node_id m \<noteq> node_id n) (body d),
                 mutations := mutations d @ [Removed n]\<rparr>)
      else Inl NotFoundError)"

text \<open>
  The body of the legacy \<open>try\<close> block: an exception of \<open>execCommand\<close> or of
  \<open>removeChild\<close> leaves the block. \<open>focus\<close> and \<open>select\<close> change nothing that is
  modelled here.
\<close>

definition fallback_try :: "environment \<Rightarrow> node \<Rightarrow> document \<Rightarrow> error + (bool \<times> document)" where
  "fallback_try env textArea d =
     (case execCommand_copy env of
        Throws err \<Rightarrow> Inl err
      | Returns successful \<Rightarrow>
          (case removeChild textArea d of
             Inl err \<Rightarrow> Inl err
           | Inr d' \<Rightarrow> Inr (successful, d')))"

text \<open>The text field of the legacy path, as set up before it enters the document.\<close>

definition new_textArea :: "jsstring \<Rightarrow> document \<Rightarrow> node" where
  "new_textArea text d =
     (createElement (js ''textarea'') d)
       \<lparr>node_value := text, style_position := js ''fixed'',
        style_left := js ''-999999px'', style_top := js ''-999999px''\<rparr>"

definition fallback :: "environment \<Rightarrow> jsstring \<Rightarrow> document \<Rightarrow> (error + bool) \<times> document" where
  "fallback env text d =
     (let textArea = new_textArea text d;
          d1 = appendChild textArea d
      in case fallback_try env textArea d1 of
           Inr (successful, d2) \<Rightarrow> (Inr successful, d2)
         | Inl err \<Rightarrow>
             (let d3 = d1\<lparr>console := console d1
                         @ [ConsoleError (js ''Fallback copy method failed'') err]\<rparr>
              in case removeChild textArea d3 of
                   Inl err' \<Rightarrow> (Inl err', d3)
                 | Inr d4 \<Rightarrow> (Inr False, d4)))"

text \<open>
  \<open>copyToClipboard\<close> is an \<open>async\<close> function: its result is the outcome of the promise it
  returns, \<open>Inl\<close> for a rejection. The \<open>await\<close> of \<open>writeText\<close> is its only suspension
  point; the legacy path runs without interruption.
\<close>

definition copyToClipboard :: "environment \<Rightarrow> jsstring \<Rightarrow> document \<Rightarrow> (error + bool) \<times> document" where
  "copyToClipboard env text d =
     (if navigator_clipboard env \<and> isSecureContext env then
        (case writeText env text of
           None \<Rightarrow> (Inr True, d)
         | Some err \<Rightarrow>
             fallback env text
               (d\<lparr>console := console d
                    @ [ConsoleWarn (js ''Clipboard API failed, falling back to execCommand'') err]\<rparr>))
      else fallback env text d)"

section \<open>Timers\<close>

text \<open>
  \<open>setTimeout\<close> and \<open>clearTimeout\<close> over a clock in milliseconds: a pending timer is a
  handle, the time it is due and its callback. \<open>clearTimeout(undefined)\<close> does nothing.
\<close>

record 'cb timers =
  clock :: nat
  next_handle :: nat
  pending :: "(nat \<times> nat \<times> 'cb) list"

text \<open>
  The delay of \<open>setTimeout\<close> is a 32-bit signed integer: the number of milliseconds
  passed in is reduced to that range, wrapping around, and a negative result counts as
  0. A delay of \<open>2 ^ 31\<close> ms or more is therefore not waited for as written.
\<close>

definition timer_delay :: "nat \<Rightarrow> nat" where
  "timer_delay ms =
     (let v = sint (word_of_nat ms :: 32 word) in if v < 0 then 0 else nat v)"

definition setTimeout :: "'cb \<Rightarrow> nat \<Rightarrow> ('cb, 'z) timers_scheme \<Rightarrow> nat \<times> ('cb, 'z) timers_scheme" where
  "setTimeout cb delay s =
     (next_handle s,
      s\<lparr>pending := pending s @ [(next_handle s, clock s + timer_delay delay, cb)],
        next_handle := Suc (next_handle s)\<rparr>)"

definition cancel :: "nat \<Rightarrow> (nat \<times> nat \<times> 'cb) list \<Rightarrow> (nat \<times> nat \<times> 'cb) list" where
  "cancel h ps = filter (\<lambda>p. fst p \<noteq> h) ps"

definition clearTimeout :: "nat option \<Rightarrow> ('cb, 'z) timers_scheme \<Rightarrow> ('cb, 'z) timers_scheme" where
  "clearTimeout h s = (case h of None \<Rightarrow> s | Some i \<Rightarrow> s\<lparr>pending := cancel i (pending s)\<rparr>)"

text \<open>The pending timer that fires next: the earliest due, the older one on a tie.\<close>

fun earliest :: "(nat \<times> nat \<times> 'cb) list \<Rightarrow> (nat \<times> nat \<times> 'cb) option" where
  "earliest [] = None"
| "earliest (p # ps) =
     (case earliest ps of
        None \<Rightarrow> Some p
      | Some q \<Rightarrow> if fst (snd q) < fst (snd p) then Some q else Some p)"

definition next_due :: "nat \<Rightarrow> (nat \<times> nat \<times> 'cb) list \<Rightarrow> (nat \<times> nat \<times> 'cb) option" where
  "next_due t ps =
     (case earliest ps of
        None \<Rightarrow> None
      | Some p \<Rightarrow> if fst (snd p) \<le> t then Some p else None)"

section \<open>Debounce\<close>

text \<open>
  One debounced function \<open>debounce(func, wait)\<close>: the timers, the captured \<open>wait\<close>, the
  closure variable \<open>timeout\<close> (\<open>None\<close> while undefined), and the calls of the wrapped
  \<open>func\<close> with the time and the arguments of each. The callback of a timer is \<open>later\<close>,
  which holds the arguments of its call.
\<close>

record 'a debounced = "'a timers" +
  wait :: nat
  timeout :: "nat option"
  func_calls :: "(nat \<times> 'a) list"

definition later :: "'a \<Rightarrow> 'a debounced \<Rightarrow> 'a debounced" where
  "later args s =
     (let s1 = clearTimeout (timeout s) s
      in s1\<lparr>func_calls := func_calls s1 @ [(clock s1, args)]\<rparr>)"

definition executedFunction :: "'a \<Rightarrow> 'a debounced \<Rightarrow> 'a debounced" where
  "executedFunction args s =
     (let s1 = clearTimeout (timeout s) s;
          (h, s2) = setTimeout args (wait s1) s1
      in s2\<lparr>timeout := Some h\<rparr>)"

text \<open>
  What holds of the closure at every moment: no timer is pending, or one is and
  \<open>timeout\<close> is its handle.
\<close>

definition consistent :: "'a debounced \<Rightarrow> bool" where
  "consistent s =
     (case pending s of [] \<Rightarrow> True | [p] \<Rightarrow> timeout s = Some (fst p) | _ \<Rightarrow> False)"

text \<open>The state right after \<open>debounce(func, wait)\<close> is evaluated at time \<open>now\<close>.\<close>

definition debounce :: "nat \<Rightarrow> nat \<Rightarrow> 'a debounced" where
  "debounce w now =
     \<lparr>clock = now, next_handle = 1, pending = [], wait = w, timeout = None, func_calls = []\<rparr>"

text \<open>The event loop up to time \<open>t\<close>: the due timers fire in order, then the clock is \<open>t\<close>.\<close>

function elapse :: "nat \<Rightarrow> 'a debounced \<Rightarrow> 'a debounced" where
  "elapse t s =
     (case next_due t (pending s) of
        None \<Rightarrow> s\<lparr>clock := max t (clock s)\<rparr>
      | Some p \<Rightarrow>
          elapse t (later (snd (snd p))
                      (s\<lparr>clock := max (fst (snd p)) (clock s),
                        pending := cancel (fst p) (pending s)\<rparr>)))"
  by pat_completeness auto
termination
proof (relation "measure (\<lambda>(t, s). length (pending s))")
  show "wf (measure (\<lambda>(t, s :: 'a debounced). length (pending s)))" by simp
next
  fix t and s :: "'a debounced" and p
  assume due: "next_due t (pending s) = Some p"
  have mem: "earliest ps = Some q \<Longrightarrow> q \<in> set ps" for ps :: "(nat \<times> nat \<times> 'a) list" and q
    by (induction ps arbitrary: q) (auto split: option.splits if_splits)
  from due have "p \<in> set (pending s)"
    by (auto simp: next_due_def split: option.splits if_splits intro: mem)
  then have "length (cancel (fst p) (pending s)) < length (pending s)"
    unfolding cancel_def by (intro length_filter_less[of p]) auto
  moreover have "length (cancel h ps) \<le> length ps" for h and ps :: "(nat \<times> nat \<times> 'a) list"
    by (simp add: cancel_def)
  ultimately show "((t, later (snd (snd p))
                      (s\<lparr>clock := max (fst (snd p)) (clock s),
                        pending := cancel (fst p) (pending s)\<rparr>)), (t, s))
        \<in> measure (\<lambda>(t, s). length (pending s))"
    by (auto simp: later_def clearTimeout_def Let_def split: option.splits intro: le_less_trans)
qed

declare elapse.simps [simp del]

text \<open>A sequence of calls of the debounced function, each at its time.\<close>

fun calls :: "(nat \<times> 'a) list \<Rightarrow> 'a debounced \<Rightarrow> 'a debounced" where
  "calls [] s = s"
| "calls ((t, args) # cs) s = calls cs (executedFunction args (elapse t s))"

section \<open>Toast\<close>








section \<open>The filter predicate of the specification\<close>

text \<open>
  The working set as the specification words it: every font for \<open>all\<close>, the fonts whose
  name is a favorite for \<open>favorites\<close>, the fonts of the category otherwise.
\<close>

definition matches :: "jsstring \<Rightarrow> json list \<Rightarrow> font \<Rightarrow> bool" where
  "matches flt favs f \<longleftrightarrow>
     (if flt = js ''all'' then True
      else if flt = js ''favorites'' then Set_has (JStr (name f)) favs
      else category f = flt)"

section \<open>Bursts of calls\<close>

text \<open>
  A burst, as the specification words it: the calls are in time order and each comes
  less than the wait time after the one before.
\<close>

fun burst :: "nat \<Rightarrow> (nat \<times> 'a) list \<Rightarrow> bool" where
  "burst w [] = True"
| "burst w [c] = True"
| "burst w (c # d # cs) = (fst c \<le> fst d \<and> fst d < fst c + w \<and> burst w (d # cs))"

section \<open>Example data\<close>

text \<open>The catalog of the scenario: two fonts, one of them a favorite.\<close>

definition scenario_state :: state where
  "scenario_state =
     \<lparr>fonts = [\<lparr>name = js ''Retro'', category = js ''serif'', class' = js ''f-retro''\<rparr>,
               \<lparr>name = js ''Neon'', category = js ''display'', class' = js ''f-neon''\<rparr>],
      currentFilter = js ''all'',
      favorites = [JStr (js ''Neon'')],
      input_value = js '' Hi '',
      grid = [],
      statsCount_textContent = [],
      localStorage = Map.empty,
      setItem_calls = []\<rparr>"

text \<open>The page when the script starts: the initial values of the module-level variables.\<close>

definition initial_state :: state where
  "initial_state =
     \<lparr>fonts = [], currentFilter = js ''all'', favorites = [], input_value = [], grid = [],
      statsCount_textContent = [], localStorage = Map.empty, setItem_calls = []\<rparr>"

text \<open>A page without the Clipboard API, and a document with one element in its body.\<close>

definition legacy_environment :: "exec_result \<Rightarrow> environment" where
  "legacy_environment r =
     \<lparr>navigator_clipboard = False, isSecureContext = False, writeText = (\<lambda>text. None),
      execCommand_copy = r\<rparr>"

definition page_document :: document where
  "page_document =
     \<lparr>body = [\<lparr>node_id = 1, tagName = js ''main'', node_value = [], style_position = [],
               style_left = [], style_top = []\<rparr>],
      console = [], mutations = []\<rparr>"

definition part000_scenario :: "jsstring \<Rightarrow> part000_state" where
  "part000_scenario v =
     \<lparr>p0_fonts = [\<lparr>name = js ''Retro'', category = js ''serif'', class' = js ''f-retro''\<rparr>,
                  \<lparr>name = js ''Neon'', category = js ''display'', class' = js ''f-neon''\<rparr>],
      p0_currentFilter = js ''all'',
      p0_input_value = v,
      p0_grid = [],
      p0_statsCount_textContent = []\<rparr>"

section \<open>Facts about \<open>Set\<close> and rendering\<close>

lemma SameValueZero_JStr [simp]: "SameValueZero (JStr a) m \<longleftrightarrow> m = JStr a"
  by (cases m) auto

lemma SameValueZero_imp_eq: "SameValueZero v m \<Longrightarrow> v = m"
  by (cases v) auto

lemma Set_has_JStr: "Set_has (JStr a) S \<longleftrightarrow> JStr a \<in> set S"
  by (auto simp: Set_has_def list_ex_iff)

lemma Set_has_delete_other: "v \<noteq> w \<Longrightarrow> Set_has v (Set_delete w S) = Set_has v S"
  by (auto simp: Set_has_def Set_delete_def list_ex_iff dest: SameValueZero_imp_eq)

lemma Set_has_add_other: "v \<noteq> w \<Longrightarrow> Set_has v (Set_add w S) = Set_has v S"
  by (auto simp: Set_has_def Set_add_def list_ex_iff dest: SameValueZero_imp_eq)

lemma foldl_append_grid:
  "foldl (\<lambda>st f. st\<lparr>grid := grid st @ [mk (favorites st) f]\<rparr>) s fs
   = s\<lparr>grid := grid s @ map (mk (favorites s)) fs\<rparr>"
  by (induction fs arbitrary: s) simp_all

lemma renderFonts_eq:
  "renderFonts flt s =
     s\<lparr>grid := map (make_card (favorites s) (currentText s)) (filteredFonts flt s),
       statsCount_textContent := ToString (length (filteredFonts flt s))\<rparr>"
  by (simp add: renderFonts_def Let_def filteredFonts_def currentText_def
      foldl_append_grid[where mk = "\<lambda>favs. make_card favs t" for t])

lemma handler_font_make_card: "handler_font (make_card favs txt f) = f"
  by (simp add: make_card_def)

lemma js_all_neq_favorites: "js ''all'' \<noteq> js ''favorites''"
  by (simp add: js_def)

lemma filteredFonts_matches:
  "filteredFonts flt s = filter (matches flt (favorites s)) (fonts s)"
  by (auto simp: filteredFonts_def matches_def js_all_neq_favorites intro!: filter_cong)

lemma toggleFavorite_favorites:
  "favorites (toggleFavorite n s) =
     (if Set_has (JStr n) (favorites s) then Set_delete (JStr n) (favorites s)
      else Set_add (JStr n) (favorites s))"
  by (simp add: toggleFavorite_def Let_def saveFavorites_def setItem_def renderFonts_eq)

lemma toggleFavorite_localStorage:
  "localStorage (toggleFavorite n s) (js ''fontFavorites'') =
     Some (JSON_stringify (JArr (favorites (toggleFavorite n s))))"
  by (simp add: toggleFavorite_def Let_def saveFavorites_def setItem_def renderFonts_eq)

lemma toggleFavorite_setItem_calls:
  "setItem_calls (toggleFavorite n s) =
     setItem_calls s
     @ [(js ''fontFavorites'', JSON_stringify (JArr (favorites (toggleFavorite n s))))]"
  by (simp add: toggleFavorite_def Let_def saveFavorites_def setItem_def renderFonts_eq)

section \<open>Facts about number-to-string conversion\<close>

lemma digit_inject:
  assumes "a < 10" "b < 10" "(0x30 + of_nat a :: jschar) = 0x30 + of_nat b"
  shows "a = b"
proof -
  from assms(3) have "(of_nat a :: jschar) = of_nat b" by simp
  then have "unat (of_nat a :: jschar) = unat (of_nat b :: jschar)" by simp
  then show ?thesis using assms(1,2) by (simp add: unat_of_nat)
qed

lemma ToString_nonempty: "ToString n \<noteq> []"
  by (subst ToString.simps) simp

lemma ToString_inject: "ToString m = ToString n \<Longrightarrow> m = n"
proof (induction m arbitrary: n rule: ToString.induct)
  case (1 m)
  show ?case
  proof (cases "m < 10")
    case True
    then have m: "ToString m = [0x30 + of_nat m]" by (subst ToString.simps) simp
    show ?thesis
    proof (cases "n < 10")
      case n: True
      then have "ToString n = [0x30 + of_nat n]" by (subst ToString.simps) simp
      with m "1.prems" True n show ?thesis by (auto dest: digit_inject)
    next
      case False
      then have "ToString n = ToString (n div 10) @ [0x30 + of_nat (n mod 10)]"
        by (subst ToString.simps) simp
      with m "1.prems" ToString_nonempty[of "n div 10"] show ?thesis by (cases "ToString (n div 10)") auto
    qed
  next
    case False
    then have m: "ToString m = ToString (m div 10) @ [0x30 + of_nat (m mod 10)]"
      by (subst ToString.simps) simp
    show ?thesis
    proof (cases "n < 10")
      case True
      then have "ToString n = [0x30 + of_nat n]" by (subst ToString.simps) simp
      with m "1.prems" ToString_nonempty[of "m div 10"] show ?thesis by (cases "ToString (m div 10)") auto
    next
      case n: False
      then have "ToString n = ToString (n div 10) @ [0x30 + of_nat (n mod 10)]"
        by (subst ToString.simps) simp
      with m "1.prems" have a: "ToString (m div 10) = ToString (n div 10)"
        and b: "(0x30 + of_nat (m mod 10) :: jschar) = 0x30 + of_nat (n mod 10)"
        by auto
      from "1.IH"[OF False a] have "m div 10 = n div 10" .
      moreover have "m mod 10 = n mod 10"
        by (rule digit_inject[OF _ _ b]) simp_all
      ultimately show ?thesis by (metis div_mult_mod_eq)
    qed
  qed
qed

section \<open>\<open>JSON.parse\<close> reads back what \<open>JSON.stringify\<close> writes for an array of strings\<close>

lemma nibble_less: "(c AND 0xF :: jschar) < 16"
  using and_mask_less_size[of 4 c] by (simp add: mask_eq_exp_minus_1 word_size)

lemma small_word_cases:
  assumes "(d :: jschar) < 16"
  shows "d \<in> set (map of_nat [0..<16])"
proof -
  have "unat d < 16" using assms by (simp add: word_less_nat_alt)
  then have "unat d \<in> set [0..<16]" by simp
  then have "of_nat (unat d) \<in> (of_nat ` set [0..<16] :: jschar set)"
    by (rule imageI)
  then show ?thesis by (simp only: set_map of_nat_unat ucast_id)
qed

lemma hexValue_hexDigit: 
  assumes "d < 16" shows "hexValue (hexDigit d) = Some d"
proof -
  have "\<forall>x \<in> set (map of_nat [0..<16] :: jschar list). hexValue (hexDigit x) = Some x"
    by (simp add: hexValue_def hexDigit_def upt_rec)
  then show ?thesis using small_word_cases[OF assms] by blast
qed

lemma nibbles_recombine:
  "push_bit 4 (push_bit 4 (push_bit 4 (push_bit 4 0 OR (drop_bit 12 c AND 0xF))
      OR (drop_bit 8 c AND 0xF)) OR (drop_bit 4 c AND 0xF)) OR (c AND 0xF) = (c :: jschar)"
proof -
  have m: "(0xF :: jschar) = mask 4" by (simp add: mask_eq_exp_minus_1)
  show ?thesis
    unfolding m
  proof (rule bit_word_eqI)
    fix n assume "n < LENGTH(16)"
    then have n: "n < 16" by simp
    consider "n < 4" | "4 \<le> n" "n < 8" | "8 \<le> n" "n < 12" | "12 \<le> n" "n < 16"
      using n by linarith
    then show "bit (push_bit 4 (push_bit 4 (push_bit 4 (push_bit 4 0 OR (drop_bit 12 c AND mask 4))
      OR (drop_bit 8 c AND mask 4)) OR (drop_bit 4 c AND mask 4)) OR (c AND mask 4)) n = bit c n"
      by cases (auto simp: bit_simps)
  qed
qed

lemma lex_raw:
  "c \<noteq> 0x22 \<Longrightarrow> c \<noteq> 0x5C \<Longrightarrow> \<not> c < 0x20 \<Longrightarrow>
   lex_from (ts, InString acc) (c # rest) = lex_from (ts, InString (acc @ [c])) rest"
  by simp

lemma lex_UnicodeEscape:
  "lex_from (ts, InString acc) (UnicodeEscape c @ rest) = lex_from (ts, InString (acc @ [c])) rest"
proof -
  have h: "hexValue (hexDigit (x AND 0xF)) = Some (x AND 0xF)" for x :: jschar
    by (rule hexValue_hexDigit) (rule nibble_less)
  show ?thesis
    using nibbles_recombine[of c]
    by (simp add: UnicodeEscape_def h)
qed

lemma surrogate_raw:
  assumes "isLeadingSurrogate c \<or> isTrailingSurrogate c"
  shows "c \<noteq> 0x22" "c \<noteq> 0x5C" "\<not> c < 0x20"
  using assms
  by (auto simp: isLeadingSurrogate_def isTrailingSurrogate_def word_le_nat_alt word_less_nat_alt)

lemma lex_quoteUnit:
  "lex_from (ts, InString acc) (quoteUnit c @ rest) = lex_from (ts, InString (acc @ [c])) rest"
  by (auto simp: quoteUnit_def lex_UnicodeEscape unescape_def)

lemma lex_quoteUnits:
  "lex_from (ts, InString acc) (quoteUnits s @ rest) = lex_from (ts, InString (acc @ s)) rest"
proof (induction s arbitrary: acc rule: quoteUnits.induct)
  case 1
  then show ?case by simp
next
  case (2 c)
  then show ?case by (simp add: lex_quoteUnit)
next
  case (3 c d cs)
  show ?case
  proof (cases "isLeadingSurrogate c \<and> isTrailingSurrogate d")
    case True
    then have "lex_from (ts, InString acc) (c # d # quoteUnits cs @ rest)
        = lex_from (ts, InString ((acc @ [c]) @ [d])) (quoteUnits cs @ rest)"
      using surrogate_raw[of c] surrogate_raw[of d] by (simp del: lex_from.simps add: lex_raw)
    then show ?thesis using True 3(1)[OF True, of "acc @ [c, d]"] by simp
  next
    case False
    then have q: "quoteUnits (c # d # cs) = quoteUnit c @ quoteUnits (d # cs)"
      by auto
    show ?thesis
      using 3(2)[OF False, of "acc @ [c]"]
      by (simp only: q append_assoc lex_quoteUnit) simp
  qed
qed

lemma lex_QuoteJSONString:
  "lex_from (ts, Between) (QuoteJSONString s @ rest) = lex_from (ts @ [TString s], Between) rest"
  using lex_quoteUnits[of ts "[]" s "0x22 # rest"]
  by (simp add: QuoteJSONString_def lex_between_def)

lemma lex_joinComma:
  "lex_from (ts, Between) (joinComma (map QuoteJSONString (n # ns)) @ rest)
   = lex_from (ts @ TString n # concat (map (\<lambda>m. [TComma, TString m]) ns), Between) rest"
proof (induction ns arbitrary: n ts)
  case Nil
  then show ?case by (simp add: lex_QuoteJSONString del: lex_from.simps)
next
  case (Cons m ns)
  have "lex_from (ts, Between) (joinComma (map QuoteJSONString (n # m # ns)) @ rest)
      = lex_from (ts @ [TString n], Between) (0x2C # joinComma (map QuoteJSONString (m # ns)) @ rest)"
    using lex_QuoteJSONString[of ts n "0x2C # joinComma (map QuoteJSONString (m # ns)) @ rest"]
    by simp
  also have "\<dots> = lex_from (ts @ [TString n, TComma], Between)
                    (joinComma (map QuoteJSONString (m # ns)) @ rest)"
    by (simp add: lex_between_def)
  finally show ?case using Cons[of "ts @ [TString n, TComma]" m] by simp
qed

lemma parse_names_rest:
  "parse_from ([FArr xs], CommaOrClose) (concat (map (\<lambda>m. [TComma, TString m]) ns) @ [TRBracket])
   = Some (JArr (xs @ map JStr ns))"
  by (induction ns arbitrary: xs) simp_all

lemma JSON_parse_stringify_names:
  "JSON_parse (JSON_stringify (JArr (map JStr ns))) = Some (JArr (map JStr ns))"
proof (cases ns)
  case Nil
  then show ?thesis by (simp add: JSON_parse_def lex_between_def)
next
  case (Cons n ns')
  have "lex_from ([], Between) (JSON_stringify (JArr (map JStr ns)))
      = lex_from ([TLBracket], Between) (joinComma (map QuoteJSONString (n # ns')) @ [0x5D])"
    by (simp add: Cons lex_between_def comp_def)
  also have "\<dots> = Some ([TLBracket] @ TString n # concat (map (\<lambda>m. [TComma, TString m]) ns') @ [TRBracket])"
    using lex_joinComma[of "[TLBracket]" n ns' "[0x5D]"] by (simp add: lex_between_def)
  finally show ?thesis
    by (simp add: JSON_parse_def Cons parse_names_rest)
qed

lemma Set_of_list_names:
  assumes "distinct ns"
  shows "Set_of_list (map JStr ns) = map JStr ns"
proof -
  have "foldl (\<lambda>S v. Set_add v S) (map JStr ms) (map JStr ns) = map JStr (ms @ ns)"
    if "distinct (ms @ ns)" for ms
    using that
  proof (induction ns arbitrary: ms)
    case Nil
    then show ?case by simp
  next
    case (Cons a ns)
    have "Set_add (JStr a) (map JStr ms) = map JStr (ms @ [a])"
      using Cons.prems by (auto simp: Set_add_def Set_has_JStr)
    then show ?case
      using Cons.IH[of "ms @ [a]"] Cons.prems by simp
  qed
  from this[of "[]"] assms show ?thesis
    by (simp add: Set_of_list_def)
qed

lemma toggleFavorite_names:
  assumes "favorites s = map JStr ns" "distinct ns"
  shows "\<exists>ns'. favorites (toggleFavorite n s) = map JStr ns' \<and> distinct ns'"
proof (cases "Set_has (JStr n) (favorites s)")
  case True
  have "Set_delete (JStr n) (map JStr ns) = map JStr (filter (\<lambda>m. m \<noteq> n) ns)"
    by (induction ns) (auto simp: Set_delete_def)
  then show ?thesis
    using True assms by (auto simp: toggleFavorite_favorites intro!: exI[of _ "filter (\<lambda>m. m \<noteq> n) ns"])
next
  case False
  then have "favorites (toggleFavorite n s) = map JStr (ns @ [n])" "distinct (ns @ [n])"
    using assms by (auto simp: toggleFavorite_favorites Set_add_def Set_has_JStr)
  then show ?thesis by blast
qed

lemma loadFavorites_reads_storage:
  assumes "localStorage s (js ''fontFavorites'') = Some (JSON_stringify (JArr (map JStr ns)))"
    and "distinct ns"
  shows "loadFavorites s = Inr (s\<lparr>favorites := map JStr ns\<rparr>)"
proof -
  have "JSON_stringify (JArr (map JStr ns)) \<noteq> []" by simp
  then show ?thesis
    using assms
    by (simp add: loadFavorites_def JSON_parse_stringify_names Set_of_list_names
        del: JSON_stringify.simps)
qed

section \<open>Rendering: count, content and order of the cards\<close>

text \<open>
  C1. For every catalog, favorite set and filter, \<open>renderFonts\<close> produces as many cards as
  there are catalog entries satisfying the predicate of the filter, and sets the text of
  the count element to the decimal text of that number, which is the text of no other
  number.
\<close>

theorem renderFonts_card_count:
  "length (grid (renderFonts flt s)) = length (filter (matches flt (favorites s)) (fonts s))
   \<and> statsCount_textContent (renderFonts flt s) =
       ToString (length (filter (matches flt (favorites s)) (fonts s)))
   \<and> (statsCount_textContent (renderFonts flt s) = ToString k
        \<longrightarrow> k = length (filter (matches flt (favorites s)) (fonts s)))"
  by (auto simp: renderFonts_eq filteredFonts_matches simp del: ToString.simps
      dest: ToString_inject)

text \<open>The scenario of the specification: filter \<open>serif\<close> gives one card and the label 1.\<close>

theorem renderFonts_card_count_witness:
  "length (grid (renderFonts (js ''serif'') scenario_state)) = 1
   \<and> statsCount_textContent (renderFonts (js ''serif'') scenario_state) = js ''1''
   \<and> js ''1'' = ToString 1"
  using renderFonts_card_count [of "js ''serif''" scenario_state 1]
  by (simp add: scenario_state_def matches_def js_def)

text \<open>
  C7. After \<open>renderFonts\<close> the grid holds exactly the cards of the fonts passing the
  filter, in catalog order, and nothing of the grid before the call: the result does
  not depend on the old grid.
\<close>

theorem renderFonts_grid_rebuilt:
  "grid (renderFonts flt s) =
     map (make_card (favorites s) (currentText s)) (filter (matches flt (favorites s)) (fonts s))
   \<and> map handler_font (grid (renderFonts flt s)) = filter (matches flt (favorites s)) (fonts s)
   \<and> renderFonts flt (s\<lparr>grid := old\<rparr>) = renderFonts flt s"
proof -
  have "map handler_font (grid (renderFonts flt s)) = filter (matches flt (favorites s)) (fonts s)"
    by (simp add: renderFonts_eq filteredFonts_matches handler_font_make_card comp_def)
  moreover have "renderFonts flt (s\<lparr>grid := old\<rparr>) = renderFonts flt s"
    by (simp add: renderFonts_eq filteredFonts_def currentText_def)
  ultimately show ?thesis
    by (simp add: renderFonts_eq filteredFonts_matches)
qed

text \<open>The favorites view of the scenario shows the one favorite, whatever its category.\<close>

theorem renderFonts_grid_rebuilt_witness:
  "map (\<lambda>c. name (handler_font c)) (grid (renderFonts (js ''favorites'') scenario_state))
     = [js ''Neon'']"
  using renderFonts_grid_rebuilt [of "js ''favorites''" scenario_state "[]"]
  by (simp add: scenario_state_def matches_def js_def Set_has_def make_card_def)

section \<open>Toggling a favorite\<close>

text \<open>
  C3. \<open>toggleFavorite n\<close> removes \<open>n\<close> from the favorite set if it is a member and adds
  it if it is not, leaves the membership of every other value as it was, and writes the
  updated set to storage: afterwards the stored text is the serialisation of the set in
  memory, and it is the one \<open>setItem\<close> call of the toggle. When the set holds names only,
  the stored text is JSON for exactly the set in memory, and \<open>loadFavorites\<close> restores
  the state after the toggle from storage alone, whatever the set in memory has become.
\<close>

theorem toggleFavorite_updates_and_persists:
  "Set_has (JStr n) (favorites (toggleFavorite n s)) = (\<not> Set_has (JStr n) (favorites s))
   \<and> (v \<noteq> JStr n \<longrightarrow>
        Set_has v (favorites (toggleFavorite n s)) = Set_has v (favorites s))
   \<and> localStorage (toggleFavorite n s) (js ''fontFavorites'') =
        Some (JSON_stringify (JArr (favorites (toggleFavorite n s))))
   \<and> setItem_calls (toggleFavorite n s) =
        setItem_calls s
        @ [(js ''fontFavorites'', JSON_stringify (JArr (favorites (toggleFavorite n s))))]
   \<and> (favorites s = map JStr ns \<and> distinct ns \<longrightarrow>
        (\<exists>txt. localStorage (toggleFavorite n s) (js ''fontFavorites'') = Some txt
           \<and> txt \<noteq> []
           \<and> JSON_parse txt = Some (JArr (favorites (toggleFavorite n s))))
        \<and> loadFavorites ((toggleFavorite n s)\<lparr>favorites := X\<rparr>) = Inr (toggleFavorite n s))"
proof -
  have a: "Set_has (JStr n) (favorites (toggleFavorite n s)) = (\<not> Set_has (JStr n) (favorites s))"
    by (auto simp: toggleFavorite_favorites Set_has_JStr Set_delete_def Set_add_def)
  have b: "v \<noteq> JStr n \<longrightarrow>
        Set_has v (favorites (toggleFavorite n s)) = Set_has v (favorites s)"
    by (simp add: toggleFavorite_favorites Set_has_delete_other Set_has_add_other)
  have c: "(\<exists>txt. localStorage (toggleFavorite n s) (js ''fontFavorites'') = Some txt
           \<and> txt \<noteq> []
           \<and> JSON_parse txt = Some (JArr (favorites (toggleFavorite n s))))
        \<and> loadFavorites ((toggleFavorite n s)\<lparr>favorites := X\<rparr>) = Inr (toggleFavorite n s)"
    if h: "favorites s = map JStr ns \<and> distinct ns"
  proof -
    obtain ns' where ns': "favorites (toggleFavorite n s) = map JStr ns'" "distinct ns'"
      using toggleFavorite_names[of s ns n] h by blast
    have st: "localStorage ((toggleFavorite n s)\<lparr>favorites := X\<rparr>) (js ''fontFavorites'')
                = Some (JSON_stringify (JArr (map JStr ns')))"
      using toggleFavorite_localStorage[of n s] ns' by simp
    have "loadFavorites ((toggleFavorite n s)\<lparr>favorites := X\<rparr>)
            = Inr ((toggleFavorite n s)\<lparr>favorites := X, favorites := map JStr ns'\<rparr>)"
      by (rule loadFavorites_reads_storage[OF st ns'(2)])
    moreover have "(toggleFavorite n s)\<lparr>favorites := X, favorites := map JStr ns'\<rparr> = toggleFavorite n s"
      using ns'(1) by simp
    moreover have "JSON_parse (JSON_stringify (JArr (favorites (toggleFavorite n s))))
            = Some (JArr (favorites (toggleFavorite n s)))"
      unfolding ns'(1) by (rule JSON_parse_stringify_names)
    moreover have "JSON_stringify (JArr (favorites (toggleFavorite n s))) \<noteq> []"
      by simp
    ultimately show ?thesis
      using toggleFavorite_localStorage[of n s] by (simp del: JSON_stringify.simps)
  qed
  show ?thesis
    using a b c toggleFavorite_localStorage toggleFavorite_setItem_calls by blast
qed

text \<open>
  Retro becomes a favorite beside Neon: storage holds the text \<open>["Neon","Retro"]\<close>, and
  \<open>loadFavorites\<close> restores that set after the set in memory is emptied.
\<close>

theorem toggleFavorite_updates_and_persists_witness:
  "\<not> Set_has (JStr (js ''Retro'')) (favorites scenario_state)
   \<and> Set_has (JStr (js ''Retro'')) (favorites (toggleFavorite (js ''Retro'') scenario_state))
   \<and> JStr (js ''Neon'') \<noteq> JStr (js ''Retro'')
   \<and> Set_has (JStr (js ''Neon'')) (favorites (toggleFavorite (js ''Retro'') scenario_state))
   \<and> favorites scenario_state = map JStr [js ''Neon''] \<and> distinct [js ''Neon'']
   \<and> favorites (toggleFavorite (js ''Retro'') scenario_state)
       = [JStr (js ''Neon''), JStr (js ''Retro'')]
   \<and> localStorage (toggleFavorite (js ''Retro'') scenario_state) (js ''fontFavorites'')
       = Some ([0x5B, 0x22] @ js ''Neon'' @ [0x22, 0x2C, 0x22] @ js ''Retro'' @ [0x22, 0x5D])
   \<and> loadFavorites ((toggleFavorite (js ''Retro'') scenario_state)\<lparr>favorites := []\<rparr>)
       = Inr (toggleFavorite (js ''Retro'') scenario_state)"
proof -
  have f: "favorites (toggleFavorite (js ''Retro'') scenario_state)
       = [JStr (js ''Neon''), JStr (js ''Retro'')]"
    by (simp add: toggleFavorite_favorites scenario_state_def Set_has_def Set_add_def js_def)
  have q: "JSON_stringify (JArr [JStr (js ''Neon''), JStr (js ''Retro'')])
       = [0x5B, 0x22] @ js ''Neon'' @ [0x22, 0x2C, 0x22] @ js ''Retro'' @ [0x22, 0x5D]"
    by (simp add: QuoteJSONString_def quoteUnit_def js_def isLeadingSurrogate_def
        isTrailingSurrogate_def)
  show ?thesis
    using toggleFavorite_updates_and_persists
      [of "js ''Retro''" scenario_state "JStr (js ''Neon'')" "[js ''Neon'']" "[]"]
    unfolding f q
    by (simp add: scenario_state_def Set_has_def js_def)
qed

text \<open>
  C4. Two calls of \<open>toggleFavorite\<close> with the same name return the favorite set to its
  members before the calls and make exactly two \<open>setItem\<close> calls, one after each toggle
  with the set of that moment.
\<close>

theorem toggleFavorite_twice:
  "set (favorites (toggleFavorite n (toggleFavorite n s))) = set (favorites s)
   \<and> setItem_calls (toggleFavorite n (toggleFavorite n s))
       = setItem_calls s
         @ [(js ''fontFavorites'', JSON_stringify (JArr (favorites (toggleFavorite n s)))),
            (js ''fontFavorites'',
             JSON_stringify (JArr (favorites (toggleFavorite n (toggleFavorite n s)))))]"
proof -
  have "set (favorites (toggleFavorite n (toggleFavorite n s))) = set (favorites s)"
    by (auto simp: toggleFavorite_favorites Set_has_JStr Set_delete_def Set_add_def)
  then show ?thesis
    by (simp add: toggleFavorite_setItem_calls)
qed

text \<open>
  C10. While the active filter is not \<open>favorites\<close>, \<open>toggleFavorite\<close> does not render:
  the grid, the count, the catalog, the filter and the input are untouched, and the
  state differs from the one before at most in the favorite set, the storage and the
  list of storage writes.
\<close>

theorem toggleFavorite_no_rerender:
  assumes "currentFilter s \<noteq> js ''favorites''"
  shows "toggleFavorite n s =
           s\<lparr>favorites := favorites (toggleFavorite n s),
             localStorage := localStorage (toggleFavorite n s),
             setItem_calls := setItem_calls (toggleFavorite n s)\<rparr>
         \<and> grid (toggleFavorite n s) = grid s
         \<and> statsCount_textContent (toggleFavorite n s) = statsCount_textContent s"
  using assms by (simp add: toggleFavorite_def Let_def saveFavorites_def setItem_def)

theorem toggleFavorite_no_rerender_witness:
  "currentFilter (renderFonts (js ''all'') scenario_state) \<noteq> js ''favorites''
   \<and> grid (toggleFavorite (js ''Retro'') (renderFonts (js ''all'') scenario_state))
       = grid (renderFonts (js ''all'') scenario_state)"
proof -
  have h: "currentFilter (renderFonts (js ''all'') scenario_state) \<noteq> js ''favorites''"
    by (simp add: renderFonts_eq scenario_state_def js_def)
  show ?thesis
    using h toggleFavorite_no_rerender [OF h, of "js ''Retro''"] by simp
qed

section \<open>The sample text\<close>

lemma dropWhile_nil_iff: "dropWhile P xs = [] \<longleftrightarrow> list_all P xs"
  by (induction xs) auto

lemma trim_empty_iff: "trim s = [] \<longleftrightarrow> list_all isWhiteSpace s"
proof -
  have "list_all isWhiteSpace (dropWhile isWhiteSpace s) \<longleftrightarrow> list_all isWhiteSpace s"
    by (induction s) auto
  then show ?thesis
    by (simp add: trim_def dropWhile_nil_iff list_all_iff)
qed

lemma foldl_append_p0_grid:
  "foldl (\<lambda>st f. st\<lparr>p0_grid := p0_grid st @ [mk f]\<rparr>) s fs
   = s\<lparr>p0_grid := p0_grid s @ map mk fs\<rparr>"
  by (induction fs arbitrary: s) simp_all

lemma part000_renderFonts_eq:
  "part000_renderFonts flt s =
     s\<lparr>p0_grid := map (part000_make_card (part000_currentText s))
                    (if flt = js ''all'' then p0_fonts s
                     else filter (\<lambda>f. category f = flt) (p0_fonts s)),
       p0_statsCount_textContent :=
         ToString (length (if flt = js ''all'' then p0_fonts s
                           else filter (\<lambda>f. category f = flt) (p0_fonts s)))\<rparr>"
  by (simp add: part000_renderFonts_def Let_def foldl_append_p0_grid part000_currentText_def)

text \<open>
  C8, as the code has it. In \<open>script.js\<close> the text of every card is the trimmed input
  value, or \<open>ABC\<close> when the input is empty or holds only white space. In the first
  version of the script the text of every card is the input value as it is, or
  \<open>I<ARIM\<close> when the input is the empty string.
\<close>

theorem sample_text_of_cards:
  "(\<forall>c \<in> set (grid (renderFonts flt s)).
      logoDiv_textContent c =
        (if list_all isWhiteSpace (input_value s) then js ''ABC'' else trim (input_value s)))
   \<and> (\<forall>c \<in> set (p0_grid (part000_renderFonts flt p)).
      p0_logoDiv_textContent c =
        (if p0_input_value p = [] then js ''I<ARIM'' else p0_input_value p))"
proof -
  have "logoDiv_textContent c =
        (if list_all isWhiteSpace (input_value s) then js ''ABC'' else trim (input_value s))"
    if "c \<in> set (grid (renderFonts flt s))" for c
    using that by (auto simp: renderFonts_eq make_card_def currentText_def trim_empty_iff)
  moreover have "p0_logoDiv_textContent c =
        (if p0_input_value p = [] then js ''I<ARIM'' else p0_input_value p)"
    if "c \<in> set (p0_grid (part000_renderFonts flt p))" for c
    using that
    by (auto simp: part000_renderFonts_eq part000_make_card_def part000_currentText_def
        split: if_splits)
  ultimately show ?thesis by blast
qed

text \<open>Both versions on the input \<open>" Hi "\<close> and on an input that selects the placeholder.\<close>

theorem sample_text_of_cards_witness:
  "map logoDiv_textContent (grid (renderFonts (js ''all'') scenario_state)) = [js ''Hi'', js ''Hi'']
   \<and> map logoDiv_textContent
        (grid (renderFonts (js ''all'') (scenario_state\<lparr>input_value := js ''  ''\<rparr>)))
       = [js ''ABC'', js ''ABC'']
   \<and> map p0_logoDiv_textContent
        (p0_grid (part000_renderFonts (js ''all'') (part000_scenario (js '' Hi ''))))
       = [js '' Hi '', js '' Hi '']
   \<and> map p0_logoDiv_textContent (p0_grid (part000_renderFonts (js ''all'') (part000_scenario [])))
       = [js ''I<ARIM'', js ''I<ARIM'']"
proof -
  have len: "length (grid (renderFonts (js ''all'') scenario_state)) = 2"
       "length (grid (renderFonts (js ''all'') (scenario_state\<lparr>input_value := js ''  ''\<rparr>))) = 2"
       "length (p0_grid (part000_renderFonts (js ''all'') (part000_scenario (js '' Hi '')))) = 2"
       "length (p0_grid (part000_renderFonts (js ''all'') (part000_scenario []))) = 2"
    by (simp_all add: renderFonts_eq filteredFonts_def scenario_state_def
        part000_renderFonts_eq part000_scenario_def js_all_neq_favorites)
  have ws: "trim (js '' Hi '') = js ''Hi''" "list_all isWhiteSpace (js ''  '')"
       "\<not> list_all isWhiteSpace (js '' Hi '')"
    by (simp_all add: trim_def js_def isWhiteSpace_def)
  have all_eq: "map g xs = [v, v]" if "length xs = 2" "\<forall>c \<in> set xs. g c = v" for g xs and v :: jsstring
    using that by (cases xs; cases "tl xs") auto
  show ?thesis
    using sample_text_of_cards [of "js ''all''" scenario_state "part000_scenario (js '' Hi '')"]
      sample_text_of_cards [of "js ''all''" "scenario_state\<lparr>input_value := js ''  ''\<rparr>"
        "part000_scenario []"]
      len ws
    by (auto intro!: all_eq simp: scenario_state_def part000_scenario_def)
qed

text \<open>
  C8 as stated fails in the first version: an input of two spaces is white space only,
  and the cards show the two spaces, which are neither the placeholder nor the trimmed
  input.
\<close>

theorem part000_whitespace_counterexample:
  "list_all isWhiteSpace (js ''  '')
   \<and> map p0_logoDiv_textContent
        (p0_grid (part000_renderFonts (js ''all'') (part000_scenario (js ''  ''))))
       = [js ''  '', js ''  '']
   \<and> js ''  '' \<noteq> js ''I<ARIM'' \<and> js ''  '' \<noteq> trim (js ''  '')"
  by (simp add: part000_renderFonts_eq part000_scenario_def part000_make_card_def
      part000_currentText_def js_def isWhiteSpace_def trim_def)

section \<open>Loading the favorites\<close>

text \<open>
  C2, as the code has it. When the stored value is absent or the empty string,
  \<open>loadFavorites\<close> returns and leaves the state, and with it the favorite set, as it was
  (empty when the script starts). When the stored value is a non-empty text that is not
  JSON, \<open>loadFavorites\<close> throws the SyntaxError of \<open>JSON.parse\<close>.
\<close>

theorem loadFavorites_absent_or_unparsable:
  "(localStorage s (js ''fontFavorites'') = None \<or> localStorage s (js ''fontFavorites'') = Some []
      \<longrightarrow> loadFavorites s = Inr s)
   \<and> (localStorage s (js ''fontFavorites'') = Some stored \<and> stored \<noteq> [] \<and> JSON_parse stored = None
      \<longrightarrow> loadFavorites s = Inl SyntaxError)"
  by (auto simp: loadFavorites_def)

theorem loadFavorites_absent_or_unparsable_witness:
  "localStorage initial_state (js ''fontFavorites'') = None
   \<and> loadFavorites initial_state = Inr initial_state
   \<and> favorites initial_state = []
   \<and> JSON_parse (js ''not json'') = None
   \<and> loadFavorites (initial_state\<lparr>localStorage := [js ''fontFavorites'' \<mapsto> js ''not json'']\<rparr>)
       = Inl SyntaxError"
proof -
  have p: "JSON_parse (js ''not json'') = None"
    by (simp add: JSON_parse_def js_def lex_between_def isDigit_def)
  have a: "localStorage initial_state (js ''fontFavorites'') = None"
    by (simp add: initial_state_def)
  have b: "localStorage (initial_state\<lparr>localStorage := [js ''fontFavorites'' \<mapsto> js ''not json'']\<rparr>)
             (js ''fontFavorites'') = Some (js ''not json'') \<and> js ''not json'' \<noteq> []"
    by (simp add: js_def)
  show ?thesis
    using loadFavorites_absent_or_unparsable [of initial_state "[]"]
      loadFavorites_absent_or_unparsable
        [of "initial_state\<lparr>localStorage := [js ''fontFavorites'' \<mapsto> js ''not json'']\<rparr>"
            "js ''not json''"]
      a b p
    by (simp add: initial_state_def)
qed

text \<open>
  C2 as stated fails: with the text \<open>{bad\<close> in storage the call does not return.
\<close>

theorem loadFavorites_unparsable_counterexample:
  "JSON_parse (js ''{bad'') = None
   \<and> loadFavorites (initial_state\<lparr>localStorage := [js ''fontFavorites'' \<mapsto> js ''{bad'']\<rparr>)
       = Inl SyntaxError"
  by (simp add: loadFavorites_def JSON_parse_def js_def lex_between_def isDigit_def)

section \<open>Copying to the clipboard\<close>

lemma fresh_not_in: "Suc (foldr max ns 0) \<notin> set ns"
proof -
  have "n \<in> set ns \<Longrightarrow> n \<le> foldr max ns 0" for n
    by (induction ns) auto
  then show ?thesis by force
qed

lemma new_textArea_id: "node_id (new_textArea text d) = Suc (foldr max (map node_id (body d)) 0)"
  by (simp add: new_textArea_def createElement_def)

lemma removeChild_appended:
  assumes "node_id ta = Suc (foldr max (map node_id (body d)) 0)"
  shows "removeChild ta ((appendChild ta d)\<lparr>console := c\<rparr>) =
         Inr (d\<lparr>console := c, mutations := mutations d @ [Appended ta, Removed ta]\<rparr>)"
proof -
  have "node_id ta \<notin> set (map node_id (body d))"
    using assms fresh_not_in[of "map node_id (body d)"] by simp
  then have "\<And>m. m \<in> set (body d) \<Longrightarrow> node_id m \<noteq> node_id ta"
    by (metis imageI list.set_map)
  then have "filter (\<lambda>m. node_id m \<noteq> node_id ta) (body d) = body d"
    by simp
  then show ?thesis
    by (simp add: removeChild_def appendChild_def)
qed

lemma removeChild_appended':
  assumes "node_id ta = Suc (foldr max (map node_id (body d)) 0)"
  shows "removeChild ta (appendChild ta d) =
         Inr (d\<lparr>mutations := mutations d @ [Appended ta, Removed ta]\<rparr>)"
  using removeChild_appended[OF assms, of "console d"] by (simp add: appendChild_def)

lemma fallback_eq:
  "fallback env text d =
     (case execCommand_copy env of
        Returns successful \<Rightarrow>
          (Inr successful,
           d\<lparr>mutations := mutations d @ [Appended (new_textArea text d), Removed (new_textArea text d)]\<rparr>)
      | Throws err \<Rightarrow>
          (Inr False,
           d\<lparr>console := console d @ [ConsoleError (js ''Fallback copy method failed'') err],
             mutations := mutations d @ [Appended (new_textArea text d), Removed (new_textArea text d)]\<rparr>))"
proof (cases "execCommand_copy env")
  case (Returns b)
  then show ?thesis
    by (simp add: fallback_def fallback_try_def Let_def removeChild_appended'[OF new_textArea_id])
next
  case (Throws err)
  have "removeChild (new_textArea text d)
          ((appendChild (new_textArea text d) d)
             \<lparr>console := console d @ [ConsoleError (js ''Fallback copy method failed'') err]\<rparr>)
        = Inr (d\<lparr>console := console d @ [ConsoleError (js ''Fallback copy method failed'') err],
                 mutations := mutations d @ [Appended (new_textArea text d), Removed (new_textArea text d)]\<rparr>)"
    by (rule removeChild_appended[OF new_textArea_id])
  moreover have "console (appendChild n d) = console d" for n
    by (simp add: appendChild_def)
  ultimately show ?thesis
    using Throws by (simp add: fallback_def fallback_try_def Let_def)
qed

lemma new_textArea_console: "new_textArea text (d\<lparr>console := c\<rparr>) = new_textArea text d"
  by (simp add: new_textArea_def createElement_def)

text \<open>
  C5. \<open>copyToClipboard\<close> never throws: its result is a boolean in every case, and the
  body of the document has the children it had before. When the Clipboard API writes
  the text, the result is \<open>true\<close> and the document is untouched. When the API is
  unavailable or its promise is rejected, the legacy path appends one off-screen text
  field holding the text and removes it again, and the result is what \<open>execCommand\<close>
  returned, or \<open>false\<close> when it threw.
\<close>

theorem copyToClipboard_contract:
  "(\<exists>b. fst (copyToClipboard env text d) = Inr b)
   \<and> body (snd (copyToClipboard env text d)) = body d
   \<and> (navigator_clipboard env \<and> isSecureContext env \<and> writeText env text = None
        \<longrightarrow> copyToClipboard env text d = (Inr True, d))
   \<and> (\<not> (navigator_clipboard env \<and> isSecureContext env) \<or> writeText env text \<noteq> None
        \<longrightarrow> mutations (snd (copyToClipboard env text d))
              = mutations d @ [Appended (new_textArea text d), Removed (new_textArea text d)]
            \<and> tagName (new_textArea text d) = js ''textarea''
            \<and> node_value (new_textArea text d) = text
            \<and> style_position (new_textArea text d) = js ''fixed''
            \<and> style_left (new_textArea text d) = js ''-999999px''
            \<and> style_top (new_textArea text d) = js ''-999999px''
            \<and> fst (copyToClipboard env text d)
              = Inr (case execCommand_copy env of Returns successful \<Rightarrow> successful
                     | Throws err \<Rightarrow> False))"
proof -
  have style: "tagName (new_textArea text d) = js ''textarea''"
      "node_value (new_textArea text d) = text"
      "style_position (new_textArea text d) = js ''fixed''"
      "style_left (new_textArea text d) = js ''-999999px''"
      "style_top (new_textArea text d) = js ''-999999px''"
    by (simp_all add: new_textArea_def createElement_def)
  show ?thesis
  proof (cases "navigator_clipboard env \<and> isSecureContext env \<and> writeText env text = None")
    case True
    then show ?thesis by (auto simp: copyToClipboard_def)
  next
    case False
    then show ?thesis
      using style
      by (cases "execCommand_copy env")
         (auto simp: copyToClipboard_def fallback_eq new_textArea_console split: option.splits)
  qed
qed

theorem copyToClipboard_contract_witness:
  "\<not> (navigator_clipboard (legacy_environment (Returns True))
       \<and> isSecureContext (legacy_environment (Returns True)))
   \<and> fst (copyToClipboard (legacy_environment (Returns True)) (js ''Neon'') page_document)
       = Inr True
   \<and> fst (copyToClipboard (legacy_environment (Throws NotAllowedError)) (js ''Neon'') page_document)
       = Inr False
   \<and> body (snd (copyToClipboard (legacy_environment (Throws NotAllowedError)) (js ''Neon'')
              page_document)) = body page_document
   \<and> node_id (new_textArea (js ''Neon'') page_document) = 2"
  using copyToClipboard_contract [of "legacy_environment (Returns True)" "js ''Neon''" page_document]
    copyToClipboard_contract [of "legacy_environment (Throws NotAllowedError)" "js ''Neon''"
      page_document]
  by (simp add: legacy_environment_def page_document_def new_textArea_def createElement_def)

section \<open>Debouncing\<close>

lemma timer_delay_small: "ms < 2 ^ 31 \<Longrightarrow> timer_delay ms = ms"
proof -
  assume a: "ms < 2 ^ 31"
  have "sint (word_of_nat ms :: 32 word) = signed_take_bit 31 (int ms)"
    by (simp add: signed_of_nat)
  also have "\<dots> = int ms"
    using a by (intro signed_take_bit_int_eq_self) simp_all
  finally show ?thesis by (simp add: timer_delay_def)
qed

lemma elapse_idle:
  "next_due t (pending s) = None \<Longrightarrow> elapse t s = s\<lparr>clock := max t (clock s)\<rparr>"
  by (simp add: elapse.simps)

lemma next_due_Nil: "next_due t [] = None"
  by (simp add: next_due_def)

lemma next_due_single: "next_due t [(h, d, a)] = (if d \<le> t then Some (h, d, a) else None)"
  by (simp add: next_due_def)

lemma executedFunction_idle:
  "pending s = [] \<Longrightarrow>
   executedFunction args s =
     s\<lparr>pending := [(next_handle s, clock s + timer_delay (wait s), args)],
       next_handle := Suc (next_handle s), timeout := Some (next_handle s)\<rparr>"
  by (simp add: executedFunction_def clearTimeout_def setTimeout_def cancel_def Let_def
      split: option.splits)

lemma executedFunction_waiting:
  "pending s = [(h, d, a)] \<Longrightarrow> timeout s = Some h \<Longrightarrow>
   executedFunction args s =
     s\<lparr>pending := [(next_handle s, clock s + timer_delay (wait s), args)],
       next_handle := Suc (next_handle s), timeout := Some (next_handle s)\<rparr>"
  by (simp add: executedFunction_def clearTimeout_def setTimeout_def cancel_def Let_def)

lemma consistent_cases:
  assumes "consistent s"
  obtains "pending s = []" | h d a where "pending s = [(h, d, a)]" "timeout s = Some h"
proof (cases "pending s")
  case Nil
  then show ?thesis using that by simp
next
  case (Cons p ps)
  with assms have "ps = []" "timeout s = Some (fst p)"
    by (auto simp: consistent_def split: list.splits)
  with Cons show ?thesis using that(2)[of "fst p" "fst (snd p)" "snd (snd p)"] by simp
qed

lemma executedFunction_consistent:
  assumes "consistent s"
  shows "executedFunction args s =
     s\<lparr>pending := [(next_handle s, clock s + timer_delay (wait s), args)],
       next_handle := Suc (next_handle s), timeout := Some (next_handle s)\<rparr>"
  using assms
  by (rule consistent_cases) (simp_all add: executedFunction_idle executedFunction_waiting)

lemma elapse_waiting_early:
  "pending s = [(h, d, a)] \<Longrightarrow> t < d \<Longrightarrow> elapse t s = s\<lparr>clock := max t (clock s)\<rparr>"
  by (simp add: elapse_idle next_due_single)

lemma elapse_waiting_due:
  assumes "pending s = [(h, d, a)]" "d \<le> t"
  shows "elapse t s =
     s\<lparr>clock := max t (max d (clock s)), pending := [],
       func_calls := func_calls s @ [(max d (clock s), a)]\<rparr>"
proof -
  let ?s1 = "later a (s\<lparr>clock := max d (clock s), pending := cancel h (pending s)\<rparr>)"
  have s1: "?s1 = s\<lparr>clock := max d (clock s), pending := [],
                     func_calls := func_calls s @ [(max d (clock s), a)]\<rparr>"
    using assms by (simp add: later_def clearTimeout_def cancel_def Let_def split: option.splits)
  have "elapse t s = elapse t ?s1"
    using assms by (subst elapse.simps) (simp add: next_due_single)
  also have "\<dots> = ?s1\<lparr>clock := max t (clock ?s1)\<rparr>"
    by (rule elapse_idle) (simp add: s1 next_due_Nil)
  finally show ?thesis by (simp add: s1)
qed

text \<open>Letting time pass keeps the closure consistent and touches neither \<open>wait\<close> nor \<open>timeout\<close>.\<close>

lemma elapse_consistent:
  assumes "consistent s" "clock s \<le> t"
  shows "consistent (elapse t s) \<and> clock (elapse t s) = t \<and> wait (elapse t s) = wait s
         \<and> (\<forall>p \<in> set (pending (elapse t s)). t < fst (snd p))
         \<and> (pending s = [] \<longrightarrow> func_calls (elapse t s) = func_calls s)"
  using assms(1)
proof (rule consistent_cases)
  assume "pending s = []"
  then show ?thesis
    using assms by (simp add: elapse_idle next_due_Nil consistent_def max_def)
next
  fix h d a assume p: "pending s = [(h, d, a)]" "timeout s = Some h"
  show ?thesis
  proof (cases "d \<le> t")
    case True
    then show ?thesis
      using assms p by (simp add: elapse_waiting_due[OF p(1) True] consistent_def max_def)
  next
    case False
    then show ?thesis
      using assms p by (simp add: elapse_waiting_early[OF p(1)] consistent_def max_def)
  qed
qed

text \<open>The state between the calls of a burst: one pending timer, for the last call.\<close>

lemma calls_burst:
  assumes "burst (wait s) ((t0, a0) # cs)" and "wait s < 2 ^ 31"
    and "pending s = [(h, t0 + wait s, a0)]" "timeout s = Some h" "clock s = t0"
  shows "\<exists>h'. pending (calls cs s) = [(h', fst (last ((t0, a0) # cs)) + wait s, snd (last ((t0, a0) # cs)))]
           \<and> timeout (calls cs s) = Some h'
           \<and> clock (calls cs s) = fst (last ((t0, a0) # cs))
           \<and> func_calls (calls cs s) = func_calls s
           \<and> wait (calls cs s) = wait s"
  using assms
proof (induction cs arbitrary: s t0 a0 h)
  case Nil
  then show ?case by simp
next
  case (Cons c cs)
  obtain t1 a1 where c: "c = (t1, a1)" by (cases c)
  from Cons.prems c have t1: "t0 \<le> t1" "t1 < t0 + wait s" and b: "burst (wait s) ((t1, a1) # cs)"
    by simp_all
  let ?s1 = "elapse t1 s"
  have s1: "?s1 = s\<lparr>clock := t1\<rparr>"
    using Cons.prems t1 by (simp add: elapse_waiting_early max_def)
  let ?s2 = "executedFunction a1 ?s1"
  have s2: "?s2 = s\<lparr>clock := t1, pending := [(next_handle s, t1 + wait s, a1)],
                     next_handle := Suc (next_handle s), timeout := Some (next_handle s)\<rparr>"
    using Cons.prems
    by (simp add: s1 timer_delay_small
        executedFunction_waiting[where h = h and d = "t0 + wait s" and a = a0])
  have "\<exists>h'. pending (calls cs ?s2) = [(h', fst (last ((t1, a1) # cs)) + wait ?s2, snd (last ((t1, a1) # cs)))]
           \<and> timeout (calls cs ?s2) = Some h'
           \<and> clock (calls cs ?s2) = fst (last ((t1, a1) # cs))
           \<and> func_calls (calls cs ?s2) = func_calls ?s2
           \<and> wait (calls cs ?s2) = wait ?s2"
    by (rule Cons.IH[where h = "next_handle s"]) (use b Cons.prems(2) in \<open>simp_all add: s2\<close>)
  then show ?case
    by (simp add: c s2)
qed

text \<open>
  C6, as the code has it. For every wait time below \<open>2 ^ 31\<close> ms, every state of the
  debounced function that calls and the passing of time can lead to, and every burst of
  one or more calls that begins there, each call less than the wait time after the one
  before: during the burst the wrapped function is not called and exactly one timer is
  pending, the one of the last call; afterwards the wrapped function has been called
  exactly once more, at the wait time after the last call, with the arguments of the last
  call. The state after the burst is again one where a burst can begin, and so is the
  state right after \<open>debounce\<close>.
\<close>

theorem debounce_burst:
  assumes "cs \<noteq> []" and "burst (wait s) cs" and "wait s < 2 ^ 31"
    and "consistent s" and "clock s \<le> fst (hd cs)" and "fst (last cs) \<le> T"
  shows "func_calls (calls cs s) = func_calls (elapse (fst (hd cs)) s)
         \<and> map snd (pending (calls cs s)) = [(fst (last cs) + wait s, snd (last cs))]
         \<and> func_calls (elapse T (calls cs s))
             = func_calls (elapse (fst (hd cs)) s)
               @ (if fst (last cs) + wait s \<le> T then [(fst (last cs) + wait s, snd (last cs))]
                  else [])
         \<and> (pending s = [] \<longrightarrow> func_calls (elapse (fst (hd cs)) s) = func_calls s)
         \<and> (fst (last cs) + wait s \<le> T \<longrightarrow> pending (elapse T (calls cs s)) = [])
         \<and> consistent (elapse T (calls cs s))
         \<and> clock (elapse T (calls cs s)) = T
         \<and> wait (elapse T (calls cs s)) = wait s
         \<and> consistent (debounce w now :: 'a debounced)"
proof -
  obtain t0 a0 cs' where cs: "cs = (t0, a0) # cs'"
    using assms(1) by (cases cs) auto
  let ?e = "elapse t0 s"
  let ?s1 = "executedFunction a0 ?e"
  let ?tl = "fst (last cs)" and ?al = "snd (last cs)"
  have e: "consistent ?e" "clock ?e = t0" "wait ?e = wait s"
    "pending s = [] \<longrightarrow> func_calls ?e = func_calls s"
    using elapse_consistent[OF assms(4), of t0] assms(5) by (simp_all add: cs)
  have s1: "?s1 = ?e\<lparr>pending := [(next_handle ?e, t0 + wait s, a0)],
                     next_handle := Suc (next_handle ?e), timeout := Some (next_handle ?e)\<rparr>"
    using executedFunction_consistent[OF e(1), of a0] e(2,3) assms(3)
    by (simp add: timer_delay_small)
  have f1: "pending ?s1 = [(next_handle ?e, t0 + wait ?s1, a0)]"
      "timeout ?s1 = Some (next_handle ?e)" "clock ?s1 = t0"
      "wait ?s1 = wait s" "func_calls ?s1 = func_calls ?e"
    unfolding s1 using e by simp_all
  have "\<exists>h'. pending (calls cs' ?s1) = [(h', fst (last ((t0, a0) # cs')) + wait ?s1, snd (last ((t0, a0) # cs')))]
           \<and> timeout (calls cs' ?s1) = Some h'
           \<and> clock (calls cs' ?s1) = fst (last ((t0, a0) # cs'))
           \<and> func_calls (calls cs' ?s1) = func_calls ?s1
           \<and> wait (calls cs' ?s1) = wait ?s1"
    using assms(2,3) f1 by (intro calls_burst[where h = "next_handle ?e"]) (simp_all only: cs)
  moreover have "calls cs s = calls cs' ?s1"
    by (simp add: cs)
  ultimately obtain h' where
    p: "pending (calls cs s) = [(h', ?tl + wait s, ?al)]"
    and to: "timeout (calls cs s) = Some h'"
    and c: "clock (calls cs s) = ?tl"
    and f: "func_calls (calls cs s) = func_calls ?e"
    and w: "wait (calls cs s) = wait s"
    unfolding f1 cs by auto
  have fin: "func_calls (elapse T (calls cs s))
             = func_calls ?e @ (if ?tl + wait s \<le> T then [(?tl + wait s, ?al)] else [])
         \<and> (?tl + wait s \<le> T \<longrightarrow> pending (elapse T (calls cs s)) = [])
         \<and> consistent (elapse T (calls cs s))
         \<and> clock (elapse T (calls cs s)) = T
         \<and> wait (elapse T (calls cs s)) = wait s"
  proof (cases "?tl + wait s \<le> T")
    case True
    then show ?thesis
      using assms(6) by (simp add: elapse_waiting_due[OF p True] f c w consistent_def max_def)
  next
    case False
    then show ?thesis
      using assms(6) elapse_waiting_early[OF p, of T]
      by (simp add: f c w p to consistent_def max_def)
  qed
  have "consistent (debounce w now :: 'a debounced)"
    by (simp add: consistent_def debounce_def)
  then show ?thesis
    using p f fin e(4) by (simp add: cs)
qed

text \<open>
  Two bursts one after the other on the same debounced function, wait 300 ms: one call of
  the action for each, at 699 ms and at 1500 ms.
\<close>

theorem debounce_burst_witness:
  "burst 300 [(0, ''a''), (100, ''b''), (399, ''c'')]
   \<and> burst 300 [(1000, ''d''), (1200, ''e'')]
   \<and> consistent (debounce 300 0 :: string debounced)
   \<and> func_calls (elapse 698 (calls [(0, ''a''), (100, ''b''), (399, ''c'')] (debounce 300 0))) = []
   \<and> func_calls (elapse 1000 (calls [(0, ''a''), (100, ''b''), (399, ''c'')] (debounce 300 0)))
       = [(699, ''c'')]
   \<and> func_calls (elapse 2000 (calls [(1000, ''d''), (1200, ''e'')]
        (elapse 1000 (calls [(0, ''a''), (100, ''b''), (399, ''c'')] (debounce 300 0)))))
       = [(699, ''c''), (1500, ''e'')]"
proof -
  let ?b1 = "[(0 :: nat, ''a''), (100, ''b''), (399, ''c'')]"
  let ?b2 = "[(1000 :: nat, ''d''), (1200, ''e'')]"
  let ?s0 = "debounce 300 0 :: string debounced"
  let ?s1 = "elapse 1000 (calls ?b1 ?s0)"
  have s0: "wait ?s0 = 300" "clock ?s0 = 0" "pending ?s0 = []" "func_calls ?s0 = []"
    "consistent ?s0"
    by (simp_all add: debounce_def consistent_def)
  have b: "burst 300 ?b1" "burst 300 ?b2" by simp_all
  have early: "func_calls (elapse 698 (calls ?b1 ?s0)) = []"
    using debounce_burst [of ?b1 ?s0 698 300 0] s0 b by (auto simp del: calls.simps)
  have one: "func_calls ?s1 = [(699, ''c'')]" "pending ?s1 = []" "consistent ?s1"
    "clock ?s1 = 1000" "wait ?s1 = 300"
    using debounce_burst [of ?b1 ?s0 1000 300 0] s0 b by (auto simp del: calls.simps)
  have two: "func_calls (elapse 2000 (calls ?b2 ?s1)) = [(699, ''c''), (1500, ''e'')]"
    using debounce_burst [of ?b2 ?s1 2000 300 0] one b by (auto simp del: calls.simps)
  show ?thesis using s0 b early one two by (simp del: calls.simps)
qed

text \<open>
  C6 as stated fails for a wait time that does not fit the timer: with a wait of
  \<open>2 ^ 31\<close> ms the timers are due at once, and two calls 1000 ms apart, less than the wait
  time, give two calls of the action.
\<close>

theorem debounce_overflow_counterexample:
  "burst 2147483648 [(0, ''a''), (1000, ''b'')]
   \<and> func_calls (elapse 1000 (calls [(0, ''a''), (1000, ''b'')] (debounce 2147483648 0)))
       = [(0, ''a''), (1000, ''b'')]"
proof -
  let ?s0 = "debounce 2147483648 0 :: string debounced"
  have d: "timer_delay 2147483648 = 0" by (simp add: timer_delay_def)
  have e0: "elapse 0 ?s0 = ?s0"
    by (simp add: elapse_idle next_due_Nil debounce_def)
  let ?s1 = "?s0\<lparr>pending := [(1, 0, ''a'')], next_handle := 2, timeout := Some 1\<rparr>"
  have s1: "executedFunction ''a'' ?s0 = ?s1"
    by (simp add: executedFunction_idle debounce_def d)
  let ?s2 = "?s0\<lparr>clock := 1000, pending := [], next_handle := 2, timeout := Some 1,
                  func_calls := [(0, ''a'')]\<rparr>"
  have s2: "elapse 1000 ?s1 = ?s2"
    by (subst elapse_waiting_due[where h = 1 and d = 0 and a = "''a''"])
       (simp_all add: debounce_def)
  let ?s3 = "?s0\<lparr>clock := 1000, pending := [(2, 1000, ''b'')], next_handle := 3,
                  timeout := Some 2, func_calls := [(0, ''a'')]\<rparr>"
  have s3: "executedFunction ''b'' ?s2 = ?s3"
    by (subst executedFunction_idle) (simp_all add: debounce_def d)
  have s4: "func_calls (elapse 1000 ?s3) = [(0, ''a''), (1000, ''b'')]"
    by (subst elapse_waiting_due[where h = 2 and d = 1000 and a = "''b''"])
       (simp_all add: debounce_def)
  have "calls [(0, ''a''), (1000, ''b'')] ?s0 = ?s3"
    by (simp only: calls.simps e0 s1 s2 s3)
  then show ?thesis using s4 by simp
qed

section \<open>The toast\<close>










end
